theory Spec2Isabelle
  imports Main
begin

section \<open>The store\<close>

text \<open>
  The bot keeps four SQLite tables (\<^verbatim>\<open>init_db\<close>, main.py lines 45-71). A table is the list
  of its rows in insertion order, which for \<^verbatim>\<open>habits\<close>, \<^verbatim>\<open>habit_logs\<close> and \<^verbatim>\<open>mood\<close> is the order
  of the rowid; for \<^verbatim>\<open>reminders\<close> the order of the rows plays no part below. Only
  \<^verbatim>\<open>habits.id\<close> and \<^verbatim>\<open>reminders.user_id\<close> are declared \<^verbatim>\<open>PRIMARY KEY\<close>; \<^verbatim>\<open>habit_logs\<close> and
  \<^verbatim>\<open>mood\<close> carry no key and no uniqueness constraint.

  Texts are \<open>string\<close>s; the non-ASCII characters of the bot's own messages are written as
  their UTF-8 bytes. Identifiers and values are Python integers (\<open>int\<close>). The clock is
  an argument of each handler that reads it. The store's own failures (input and output,
  locks) are not modelled.
\<close>

record habit =
  hab_id :: int
  hab_user :: int
  hab_name :: string

record habit_log =
  log_user :: int
  log_habit :: int
  log_date :: string
  log_value :: int

record mood_row =
  mood_user :: int
  mood_date :: string
  mood_value :: int

record reminder =
  rem_user :: int
  rem_time :: string

text \<open>
  \<open>habits_seq\<close> is the counter that \<^verbatim>\<open>AUTOINCREMENT\<close> keeps for the table \<^verbatim>\<open>habits\<close>: the
  largest id ever handed out.
\<close>

record db =
  habits :: "habit list"
  habits_seq :: int
  habit_logs :: "habit_log list"
  mood :: "mood_row list"
  reminders :: "reminder list"

definition init_db :: db where
  "init_db = \<lparr>habits = [], habits_seq = 0, habit_logs = [], mood = [], reminders = []\<rparr>"

text \<open>
  The sqlite3 driver binds a Python integer only when it fits a signed 64-bit column
  value and raises \<^verbatim>\<open>OverflowError\<close> otherwise, before the statement runs.
\<close>

datatype error = OverflowError

definition sqlite_int :: "int \<Rightarrow> bool" where
  "sqlite_int n \<longleftrightarrow> - (2 ^ 63) \<le> n \<and> n < 2 ^ 63"

text \<open>\<^verbatim>\<open>cursor.fetchone()\<close>: the first row of a result, or \<^verbatim>\<open>None\<close>.\<close>

definition fetchone :: "'a list \<Rightarrow> 'a option" where
  "fetchone rows = (case rows of [] \<Rightarrow> None | r # _ \<Rightarrow> Some r)"

section \<open>What a handler sends back\<close>

text \<open>
  A button of the today-view stands for
  \<^verbatim>\<open>InlineKeyboardButton(f"{mark} {name}", callback_data=f"h_{hid}")\<close>: \<open>btn_checked\<close> is
  whether the mark is the checked one.
\<close>

record button =
  btn_checked :: bool
  btn_name :: string
  btn_habit :: int

datatype reply =
  Text string
  | Today "button list"
  | MoodSaved int

datatype conv_state = CHOOSING | ADDING | REMOVING | EDITING | EDITING_VALUE | END

text \<open>
  A handler that raises leaves the store as it was: every raise of the handlers below
  happens before the first write of its \<^verbatim>\<open>with get_db()\<close> block.
\<close>

definition committed :: "db \<Rightarrow> error + db \<times> 'a \<Rightarrow> db" where
  "committed db res = (case res of Inl _ \<Rightarrow> db | Inr (db', _) \<Rightarrow> db')"

section \<open>Today-view and habit toggle\<close>

text \<open>\<^verbatim>\<open>HabitBot.user_habits\<close> (lines 84-89).\<close>

definition user_habits :: "db \<Rightarrow> int \<Rightarrow> (int \<times> string) list" where
  "user_habits db uid =
     map (\<lambda>h. (hab_id h, hab_name h)) (filter (\<lambda>h. hab_user h = uid) (habits db))"

text \<open>
  \<^verbatim>\<open>INSERT INTO habits (user_id, name) VALUES (?,?)\<close>: the new id is one more than the
  largest id the table has ever held.
\<close>

definition insert_habit :: "int \<Rightarrow> string \<Rightarrow> db \<Rightarrow> db" where
  "insert_habit uid name db =
     (let i = fold max (map hab_id (habits db)) (habits_seq db) + 1
      in db\<lparr>habits := habits db @ [\<lparr>hab_id = i, hab_user = uid, hab_name = name\<rparr>],
            habits_seq := i\<rparr>)"

definition default_habits :: "string list" where
  "default_habits =
     [CHR 0xF0 # CHR 0x9F # CHR 0x8F # CHR 0x83 # '' Sport'',
      CHR 0xF0 # CHR 0x9F # CHR 0x92 # CHR 0xA7 # '' Water'',
      CHR 0xF0 # CHR 0x9F # CHR 0x93 # CHR 0x9A # '' Study'']"

text \<open>
  \<^verbatim>\<open>SELECT value FROM habit_logs WHERE user_id=? AND habit_id=? AND date=?\<close>, as rows.
\<close>

definition log_key :: "int \<Rightarrow> int \<Rightarrow> string \<Rightarrow> habit_log \<Rightarrow> bool" where
  "log_key uid hid day r \<longleftrightarrow> log_user r = uid \<and> log_habit r = hid \<and> log_date r = day"

definition log_rows :: "db \<Rightarrow> int \<Rightarrow> int \<Rightarrow> string \<Rightarrow> habit_log list" where
  "log_rows db uid hid day = filter (log_key uid hid day) (habit_logs db)"

text \<open>
  \<^verbatim>\<open>HabitBot.start\<close> (lines 146-172). \<open>today\<close> is the handler's reading of the clock. The mark
  of a button is the checked one when \<^verbatim>\<open>row and row[0]\<close> holds.
\<close>

definition start :: "db \<Rightarrow> int \<Rightarrow> string \<Rightarrow> error + db \<times> reply" where
  "start db uid today =
     (if \<not> sqlite_int uid then Inl OverflowError
      else
        let db' = (if user_habits db uid = []
                   then fold (insert_habit uid) default_habits db
                   else db);
            keyboard =
              map (\<lambda>(hid, name).
                     \<lparr>btn_checked =
                        (case fetchone (log_rows db' uid hid today) of
                           None \<Rightarrow> False
                         | Some r \<Rightarrow> log_value r \<noteq> 0),
                      btn_name = name, btn_habit = hid\<rparr>)
                  (user_habits db' uid)
        in Inr (db', Today keyboard))"

text \<open>
  \<^verbatim>\<open>HabitBot.toggle_habit\<close> (lines 174-200). \<open>hid\<close> is the value of
  \<^verbatim>\<open>int(q.data.split("_")[1])\<close>; \<open>today\<close> is the handler's reading of the clock and \<open>today'\<close>
  the one \<^verbatim>\<open>start\<close> takes when the handler calls it at its end. The \<^verbatim>\<open>UPDATE\<close> writes
  \<^verbatim>\<open>1 - row[0]\<close> into every row of the key.
\<close>

definition toggle_habit :: "db \<Rightarrow> int \<Rightarrow> int \<Rightarrow> string \<Rightarrow> string \<Rightarrow> error + db \<times> reply" where
  "toggle_habit db uid hid today today' =
     (if \<not> (sqlite_int uid \<and> sqlite_int hid) then Inl OverflowError
      else
        case fetchone (log_rows db uid hid today) of
          Some row \<Rightarrow>
            if \<not> sqlite_int (1 - log_value row) then Inl OverflowError
            else
              start
                (db\<lparr>habit_logs :=
                      map (\<lambda>r. if log_key uid hid today r
                                then r\<lparr>log_value := 1 - log_value row\<rparr> else r)
                          (habit_logs db)\<rparr>)
                uid today'
        | None \<Rightarrow>
            start
              (db\<lparr>habit_logs :=
                    habit_logs db @
                    [\<lparr>log_user = uid, log_habit = hid, log_date = today, log_value = 1\<rparr>]\<rparr>)
              uid today')"

text \<open>The key of a log row: user, habit and date.\<close>

definition log_key_of :: "habit_log \<Rightarrow> int \<times> int \<times> string" where
  "log_key_of r = (log_user r, log_habit r, log_date r)"

text \<open>The table \<^verbatim>\<open>habit_logs\<close> holds one row per key at most, each of value 0 or 1.\<close>

definition logs_ok :: "db \<Rightarrow> bool" where
  "logs_ok db \<longleftrightarrow>
     distinct (map log_key_of (habit_logs db)) \<and>
     (\<forall>r \<in> set (habit_logs db). log_value r \<in> {0, 1})"

text \<open>The completion value the bot reads for a key, an absent row counting as 0.\<close>

definition stored_value :: "db \<Rightarrow> int \<Rightarrow> int \<Rightarrow> string \<Rightarrow> int" where
  "stored_value db uid hid day =
     (case fetchone (log_rows db uid hid day) of None \<Rightarrow> 0 | Some r \<Rightarrow> log_value r)"

text \<open>
  A run of toggle presses, each \<open>(uid, hid, today, today')\<close>; a press whose handler raises
  changes nothing and the bot goes on with the next one.
\<close>

fun toggles :: "db \<Rightarrow> (int \<times> int \<times> string \<times> string) list \<Rightarrow> db" where
  "toggles db [] = db"
| "toggles db ((uid, hid, today, today') # evs) =
     toggles (committed db (toggle_habit db uid hid today today')) evs"

section \<open>Customize conversation\<close>

text \<open>
  \<^verbatim>\<open>HabitBot.remove_habit\<close> (lines 247-257). \<open>uid\<close> is the user who pressed the button
  (\<^verbatim>\<open>q.from_user.id\<close>), which the handler never reads; \<open>hid\<close> is the value of
  \<^verbatim>\<open>int(q.data.split("_")[1])\<close>.
\<close>

definition habit_removed :: string where
  "habit_removed = ''Habit removed '' @ [CHR 0xE2, CHR 0x9D, CHR 0x8C]"

definition remove_habit :: "db \<Rightarrow> int \<Rightarrow> int \<Rightarrow> error + db \<times> reply \<times> conv_state" where
  "remove_habit db uid hid =
     (if \<not> sqlite_int hid then Inl OverflowError
      else Inr (db\<lparr>habits := filter (\<lambda>h. hab_id h \<noteq> hid) (habits db)\<rparr>,
                Text habit_removed, END))"

text \<open>
  \<^verbatim>\<open>HabitBot.edit_select\<close> (lines 259-265) and \<^verbatim>\<open>HabitBot.edit_save\<close> (lines 267-277).
  \<open>ud\<close> is \<^verbatim>\<open>ctx.user_data\<close>. With no remembered id the \<^verbatim>\<open>UPDATE\<close> compares \<^verbatim>\<open>id\<close> with
  \<^verbatim>\<open>NULL\<close> and matches no row.
\<close>

definition is_space :: "char \<Rightarrow> bool" where
  "is_space c \<longleftrightarrow> (of_char c :: nat) \<in> {9, 10, 11, 12, 13, 28, 29, 30, 31, 32}"

text \<open>
  \<^verbatim>\<open>str.strip()\<close>, on ASCII white space: the characters 9 to 13, 28 to 31 and 32.
\<close>

definition strip :: "string \<Rightarrow> string" where
  "strip s = rev (dropWhile is_space (rev (dropWhile is_space s)))"

definition habit_updated :: string where
  "habit_updated = ''Habit updated '' @ [CHR 0xE2, CHR 0x9C, CHR 0xA8]"

definition edit_select ::
  "(string \<rightharpoonup> int) \<Rightarrow> int \<Rightarrow> int \<Rightarrow> (string \<rightharpoonup> int) \<times> reply \<times> conv_state" where
  "edit_select ud uid hid =
     (ud(''edit_habit_id'' \<mapsto> hid), Text ''Send new habit name:'', EDITING_VALUE)"

definition edit_save ::
  "db \<Rightarrow> (string \<rightharpoonup> int) \<Rightarrow> int \<Rightarrow> string \<Rightarrow> error + db \<times> reply \<times> conv_state" where
  "edit_save db ud uid text =
     (case ud ''edit_habit_id'' of
        None \<Rightarrow> Inr (db, Text habit_updated, END)
      | Some hid \<Rightarrow>
          if \<not> sqlite_int hid then Inl OverflowError
          else Inr (db\<lparr>habits :=
                         map (\<lambda>h. if hab_id h = hid then h\<lparr>hab_name := strip text\<rparr> else h)
                             (habits db)\<rparr>,
                    Text habit_updated, END))"

text \<open>A store with two users, 10 and 20, one habit each, and a log row of user 20.\<close>

definition two_users :: db where
  "two_users =
     \<lparr>habits = [\<lparr>hab_id = 1, hab_user = 10, hab_name = ''Run''\<rparr>,
                 \<lparr>hab_id = 2, hab_user = 20, hab_name = ''Read''\<rparr>],
      habits_seq = 2,
      habit_logs = [\<lparr>log_user = 20, log_habit = 2, log_date = ''2024-05-01'', log_value = 1\<rparr>],
      mood = [], reminders = []\<rparr>"

section \<open>Mood\<close>

text \<open>
  \<^verbatim>\<open>HabitBot.save_mood\<close> (lines 307-318). \<open>val\<close> is the value of
  \<^verbatim>\<open>int(q.data.split("_")[1])\<close>. The table \<^verbatim>\<open>mood\<close> has no key, so \<^verbatim>\<open>REPLACE INTO mood\<close> never
  meets a conflict and is a plain insert.
\<close>

definition save_mood :: "db \<Rightarrow> int \<Rightarrow> int \<Rightarrow> string \<Rightarrow> error + db \<times> reply" where
  "save_mood db uid val today =
     (if \<not> (sqlite_int uid \<and> sqlite_int val) then Inl OverflowError
      else Inr (db\<lparr>mood := mood db @
                            [\<lparr>mood_user = uid, mood_date = today, mood_value = val\<rparr>]\<rparr>,
                MoodSaved val))"

definition mood_rows :: "db \<Rightarrow> int \<Rightarrow> string \<Rightarrow> mood_row list" where
  "mood_rows db uid day = filter (\<lambda>r. mood_user r = uid \<and> mood_date r = day) (mood db)"

section \<open>Reminders\<close>

text \<open>
  \<^verbatim>\<open>re.match(r"\d{2}:\d{2}", s)\<close>: the pattern is matched at the start of \<open>s\<close> and nothing is
  asked of what follows. On ASCII, \<^verbatim>\<open>\d\<close> is a character of 0 to 9.
\<close>

definition is_digit :: "char \<Rightarrow> bool" where
  "is_digit c \<longleftrightarrow> c \<in> set ''0123456789''"

fun re_match :: "string \<Rightarrow> bool" where
  "re_match (a # b # c # d # e # _) \<longleftrightarrow>
     is_digit a \<and> is_digit b \<and> c = CHR '':'' \<and> is_digit d \<and> is_digit e"
| "re_match _ \<longleftrightarrow> False"

definition reminder_set :: string where
  "reminder_set = ''Reminder set '' @ [CHR 0xE2, CHR 0x8F, CHR 0xB0]"

text \<open>
  \<^verbatim>\<open>REPLACE INTO reminders VALUES (?,?)\<close>: \<^verbatim>\<open>user_id\<close> is the primary key, so the row of the
  user, if any, is deleted and the new one inserted.
\<close>

definition replace_reminder :: "int \<Rightarrow> string \<Rightarrow> reminder list \<Rightarrow> reminder list" where
  "replace_reminder uid t rows =
     filter (\<lambda>r. rem_user r \<noteq> uid) rows @ [\<lparr>rem_user = uid, rem_time = t\<rparr>]"

text \<open>\<^verbatim>\<open>SELECT * FROM reminders WHERE user_id=?\<close>, as rows.\<close>

definition user_reminders :: "db \<Rightarrow> int \<Rightarrow> reminder list" where
  "user_reminders db uid = filter (\<lambda>r. rem_user r = uid) (reminders db)"

text \<open>\<^verbatim>\<open>HabitBot.remind\<close> (lines 344-364). \<open>args\<close> is \<^verbatim>\<open>ctx.args\<close>.\<close>

definition remind :: "db \<Rightarrow> int \<Rightarrow> string list \<Rightarrow> error + db \<times> reply" where
  "remind db uid args =
     (case args of
        [] \<Rightarrow> Inr (db, Text ''/remind HH:MM or /remind off'')
      | a # _ \<Rightarrow>
          if a = ''off'' then
            (if \<not> sqlite_int uid then Inl OverflowError
             else Inr (db\<lparr>reminders := filter (\<lambda>r. rem_user r \<noteq> uid) (reminders db)\<rparr>,
                       Text ''Reminder off''))
          else if \<not> re_match a then Inr (db, Text ''Format HH:MM'')
          else if \<not> sqlite_int uid then Inl OverflowError
          else Inr (db\<lparr>reminders := replace_reminder uid a (reminders db)\<rparr>,
                    Text reminder_set))"

text \<open>
  \<^verbatim>\<open>HabitBot.send_reminders\<close> (lines 137-142): the messages of one tick, as the pairs of
  receiver and text, in the order of the rows read. \<open>now\<close> is the clock as \<^verbatim>\<open>%H:%M\<close>. Every
  \<^verbatim>\<open>send_message\<close> is taken to succeed.
\<close>

definition time_to_mark :: string where
  "time_to_mark = [CHR 0xE2, CHR 0x8F, CHR 0xB0] @ '' Time to mark habits! /start''"

definition send_reminders :: "db \<Rightarrow> string \<Rightarrow> (int \<times> string) list" where
  "send_reminders db now =
     map (\<lambda>r. (rem_user r, time_to_mark)) (filter (\<lambda>r. rem_time r = now) (reminders db))"

section \<open>Mood rows\<close>

text \<open>
  C1 (fails on the code). Two mood presses of one user on one date leave two rows for
  that user and date in the table \<^verbatim>\<open>mood\<close>: the second press adds a row and replaces none.
\<close>

theorem save_mood_twice_two_rows:
  "mood_rows
     (committed (committed init_db (save_mood init_db 1 3 ''2024-05-01''))
        (save_mood (committed init_db (save_mood init_db 1 3 ''2024-05-01'')) 1 7 ''2024-05-01''))
     1 ''2024-05-01'' =
   [\<lparr>mood_user = 1, mood_date = ''2024-05-01'', mood_value = 3\<rparr>,
    \<lparr>mood_user = 1, mood_date = ''2024-05-01'', mood_value = 7\<rparr>]"
  by (simp add: save_mood_def committed_def init_db_def mood_rows_def sqlite_int_def)

section \<open>First-run seeding\<close>

lemma insert_habit_frame:
  "habit_logs (insert_habit u n db) = habit_logs db"
  "mood (insert_habit u n db) = mood db"
  "reminders (insert_habit u n db) = reminders db"
  by (simp_all add: insert_habit_def Let_def)

lemma fold_insert_habit_frame:
  "habit_logs (fold (insert_habit u) ns db) = habit_logs db \<and>
   mood (fold (insert_habit u) ns db) = mood db \<and>
   reminders (fold (insert_habit u) ns db) = reminders db"
  by (induction ns arbitrary: db) (simp_all add: insert_habit_frame)

lemma fold_insert_habit_rows:
  "\<exists>new. habits (fold (insert_habit u) ns db) = habits db @ new \<and>
         map hab_user new = map (\<lambda>_. u) ns \<and> map hab_name new = ns"
proof (induction ns arbitrary: db)
  case Nil
  then show ?case by simp
next
  case (Cons n ns)
  obtain new where new: "habits (fold (insert_habit u) ns (insert_habit u n db)) =
      habits (insert_habit u n db) @ new"
    "map hab_user new = map (\<lambda>_. u) ns" "map hab_name new = ns"
    using Cons.IH [of "insert_habit u n db"] by blast
  obtain i where i: "habits (insert_habit u n db) =
      habits db @ [\<lparr>hab_id = i, hab_user = u, hab_name = n\<rparr>]"
    by (simp add: insert_habit_def Let_def)
  show ?case
    by (rule exI [of _ "\<lparr>hab_id = i, hab_user = u, hab_name = n\<rparr> # new"])
       (simp add: new i)
qed

lemma start_frame:
  "habit_logs (committed db (start db uid t)) = habit_logs db \<and>
   mood (committed db (start db uid t)) = mood db \<and>
   reminders (committed db (start db uid t)) = reminders db"
  by (simp add: start_def committed_def Let_def fold_insert_habit_frame)

lemma start_Inr:
  "sqlite_int uid \<Longrightarrow>
   \<exists>k. start db uid t =
     Inr (if user_habits db uid = [] then fold (insert_habit uid) default_habits db else db, k)"
  by (simp add: start_def Let_def)

lemma filter_user_all:
  "map hab_user new = map (\<lambda>_. u) ns \<Longrightarrow> filter (\<lambda>h. hab_user h = u) new = new"
  by (induction new arbitrary: ns) auto

text \<open>
  C5. For a user with no habit row, the today-view appends exactly three rows to the table
  \<^verbatim>\<open>habits\<close>, all owned by that user and named as the three defaults, and a second
  today-view leaves the store as the first one left it. For a user with a habit row the
  today-view leaves the store unchanged.
\<close>

theorem start_seeds_once:
  assumes "sqlite_int uid"
  shows "(user_habits db uid = [] \<longrightarrow>
            (\<exists>db1 k1 new k2.
               start db uid today = Inr (db1, k1) \<and>
               habits db1 = habits db @ new \<and>
               map hab_user new = [uid, uid, uid] \<and>
               map hab_name new = default_habits \<and>
               map snd (user_habits db1 uid) = default_habits \<and>
               start db1 uid today' = Inr (db1, k2))) \<and>
         (user_habits db uid \<noteq> [] \<longrightarrow> (\<exists>k. start db uid today = Inr (db, k)))"
proof (intro conjI impI)
  assume none: "user_habits db uid = []"
  define db1 where "db1 = fold (insert_habit uid) default_habits db"
  obtain k1 where k1: "start db uid today = Inr (db1, k1)"
    using start_Inr [OF assms, of db today] none by (auto simp: db1_def)
  obtain new where new: "habits db1 = habits db @ new"
      "map hab_user new = map (\<lambda>_. uid) default_habits" "map hab_name new = default_habits"
    using fold_insert_habit_rows [of uid default_habits db] by (auto simp: db1_def)
  have users: "map hab_user new = [uid, uid, uid]"
    using new(2) by (simp add: default_habits_def)
  have old: "filter (\<lambda>h. hab_user h = uid) (habits db) = []"
    using none by (simp add: user_habits_def)
  have mine: "user_habits db1 uid = map (\<lambda>h. (hab_id h, hab_name h)) new"
    using filter_user_all [OF new(2)] old by (simp add: user_habits_def new(1))
  have names: "map snd (user_habits db1 uid) = default_habits"
    using new(3) by (simp add: mine comp_def)
  have "default_habits \<noteq> []"
    by (simp add: default_habits_def)
  then have "user_habits db1 uid \<noteq> []"
    using names by auto
  then obtain k2 where k2: "start db1 uid today' = Inr (db1, k2)"
    using start_Inr [OF assms, of db1 today'] by auto
  show "\<exists>db1 k1 new k2.
           start db uid today = Inr (db1, k1) \<and>
           habits db1 = habits db @ new \<and>
           map hab_user new = [uid, uid, uid] \<and>
           map hab_name new = default_habits \<and>
           map snd (user_habits db1 uid) = default_habits \<and>
           start db1 uid today' = Inr (db1, k2)"
    by (intro exI conjI) (rule k1, rule new(1), rule users, rule new(3), rule names, rule k2)
next
  assume "user_habits db uid \<noteq> []"
  then show "\<exists>k. start db uid today = Inr (db, k)"
    using start_Inr [OF assms, of db today] by auto
qed

theorem start_seeds_once_witness:
  "sqlite_int 7 \<and> user_habits init_db 7 = [] \<and>
   length (habits (committed init_db (start init_db 7 ''2024-05-01''))) = 3 \<and>
   habits (committed (committed init_db (start init_db 7 ''2024-05-01''))
             (start (committed init_db (start init_db 7 ''2024-05-01'')) 7 ''2024-05-02'')) =
   habits (committed init_db (start init_db 7 ''2024-05-01''))"
proof -
  have a: "sqlite_int 7" by (simp add: sqlite_int_def)
  have b: "user_habits init_db 7 = []" by (simp add: user_habits_def init_db_def)
  from start_seeds_once [OF a, of init_db "''2024-05-01''" "''2024-05-02''"] b
  have "\<exists>db1 k1 new k2.
          start init_db 7 ''2024-05-01'' = Inr (db1, k1) \<and>
          habits db1 = habits init_db @ new \<and>
          map hab_user new = [7, 7, 7] \<and>
          map hab_name new = default_habits \<and>
          map snd (user_habits db1 7) = default_habits \<and>
          start db1 7 ''2024-05-02'' = Inr (db1, k2)"
    by simp
  then obtain db1 k1 new k2 where
    s: "start init_db 7 ''2024-05-01'' = Inr (db1, k1)"
    "habits db1 = habits init_db @ new" "map hab_user new = [7, 7, 7]"
    "start db1 7 ''2024-05-02'' = Inr (db1, k2)"
    by auto
  have "length new = 3" using s(3) by (metis length_map length_Cons list.size(3) numeral_3_eq_3)
  then show ?thesis using a b s by (simp add: committed_def init_db_def)
qed

section \<open>Toggling a habit\<close>

lemma log_rows_update:
  "filter (log_key u h d)
     (map (\<lambda>r. if log_key u h d r then r\<lparr>log_value := v\<rparr> else r) rows) =
   map (\<lambda>r. r\<lparr>log_value := v\<rparr>) (filter (log_key u h d) rows)"
  by (induction rows) (auto simp: log_key_def)

lemma log_key_of_update:
  "map log_key_of (map (\<lambda>r. if log_key u h d r then r\<lparr>log_value := v\<rparr> else r) rows) =
   map log_key_of rows"
  by (induction rows) (auto simp: log_key_of_def)

lemma log_key_iff: "log_key u h d r \<longleftrightarrow> log_key_of r = (u, h, d)"
  by (auto simp: log_key_def log_key_of_def)

lemma toggle_habit_absent:
  assumes "sqlite_int uid" "sqlite_int hid" "log_rows db uid hid day = []"
  shows "\<exists>db' k. toggle_habit db uid hid day t = Inr (db', k) \<and>
           habit_logs db' = habit_logs db @
             [\<lparr>log_user = uid, log_habit = hid, log_date = day, log_value = 1\<rparr>]"
proof -
  let ?db = "db\<lparr>habit_logs := habit_logs db @
             [\<lparr>log_user = uid, log_habit = hid, log_date = day, log_value = 1\<rparr>]\<rparr>"
  have t: "toggle_habit db uid hid day t = start ?db uid t"
    using assms by (simp add: toggle_habit_def fetchone_def)
  obtain k where "start ?db uid t =
      Inr (if user_habits ?db uid = [] then fold (insert_habit uid) default_habits ?db else ?db, k)"
    using start_Inr [OF assms(1)] by blast
  then show ?thesis
    by (simp add: t fold_insert_habit_frame)
qed

lemma toggle_habit_present:
  assumes "sqlite_int uid" "sqlite_int hid" "log_rows db uid hid day = row # rest"
    "sqlite_int (1 - log_value row)"
  shows "\<exists>db' k. toggle_habit db uid hid day t = Inr (db', k) \<and>
           habit_logs db' =
             map (\<lambda>r. if log_key uid hid day r then r\<lparr>log_value := 1 - log_value row\<rparr> else r)
               (habit_logs db)"
proof -
  let ?db = "db\<lparr>habit_logs :=
      map (\<lambda>r. if log_key uid hid day r then r\<lparr>log_value := 1 - log_value row\<rparr> else r)
        (habit_logs db)\<rparr>"
  have t: "toggle_habit db uid hid day t = start ?db uid t"
    using assms by (simp add: toggle_habit_def fetchone_def)
  obtain k where "start ?db uid t =
      Inr (if user_habits ?db uid = [] then fold (insert_habit uid) default_habits ?db else ?db, k)"
    using start_Inr [OF assms(1)] by blast
  then show ?thesis
    by (simp add: t fold_insert_habit_frame)
qed

text \<open>
  C4. Two toggle presses in a row for the same user, habit id and date, whose values the
  driver can bind, both go through, and the completion value read for that key afterwards
  is the one read before, an absent row reading as 0.
\<close>

theorem toggle_twice:
  assumes "sqlite_int uid" "sqlite_int hid"
    "sqlite_int (stored_value db uid hid day)" "sqlite_int (1 - stored_value db uid hid day)"
  shows "\<exists>db1 k1 db2 k2.
           toggle_habit db uid hid day t1 = Inr (db1, k1) \<and>
           toggle_habit db1 uid hid day t2 = Inr (db2, k2) \<and>
           stored_value db2 uid hid day = stored_value db uid hid day"
proof (cases "log_rows db uid hid day")
  case Nil
  obtain db1 k1 where 1: "toggle_habit db uid hid day t1 = Inr (db1, k1)"
    "habit_logs db1 = habit_logs db @
       [\<lparr>log_user = uid, log_habit = hid, log_date = day, log_value = 1\<rparr>]"
    using toggle_habit_absent [OF assms(1,2) Nil] by blast
  have rows1: "log_rows db1 uid hid day =
      [\<lparr>log_user = uid, log_habit = hid, log_date = day, log_value = 1\<rparr>]"
    using Nil by (simp add: log_rows_def 1(2) log_key_def)
  have one: "sqlite_int (1 - log_value
      \<lparr>log_user = uid, log_habit = hid, log_date = day, log_value = 1\<rparr>)"
    by (simp add: sqlite_int_def)
  obtain db2 k2 where 2: "toggle_habit db1 uid hid day t2 = Inr (db2, k2)"
    "habit_logs db2 = map (\<lambda>r. if log_key uid hid day r
        then r\<lparr>log_value := 1 - log_value
          \<lparr>log_user = uid, log_habit = hid, log_date = day, log_value = 1\<rparr>\<rparr> else r)
          (habit_logs db1)"
    using toggle_habit_present [OF assms(1,2) rows1 one, of t2] by blast
  have "stored_value db2 uid hid day = 0"
    using rows1 by (simp add: stored_value_def log_rows_def 2(2) log_rows_update fetchone_def)
  moreover have "stored_value db uid hid day = 0"
    using Nil by (simp add: stored_value_def fetchone_def)
  ultimately show ?thesis using 1(1) 2(1) by simp
next
  case (Cons row rest)
  have v: "stored_value db uid hid day = log_value row"
    using Cons by (simp add: stored_value_def fetchone_def)
  have flip_ok: "sqlite_int (1 - log_value row)"
    using assms(4) v by simp
  have undo_ok: "sqlite_int (1 - log_value (row\<lparr>log_value := 1 - log_value row\<rparr>))"
    using assms(3) v by simp
  obtain db1 k1 where 1: "toggle_habit db uid hid day t1 = Inr (db1, k1)"
    "habit_logs db1 =
       map (\<lambda>r. if log_key uid hid day r then r\<lparr>log_value := 1 - log_value row\<rparr> else r)
         (habit_logs db)"
    using toggle_habit_present [OF assms(1,2) Cons flip_ok, of t1] by blast
  have rows1: "log_rows db1 uid hid day =
      row\<lparr>log_value := 1 - log_value row\<rparr> # map (\<lambda>r. r\<lparr>log_value := 1 - log_value row\<rparr>) rest"
    using Cons by (simp add: log_rows_def 1(2) log_rows_update)
  obtain db2 k2 where 2: "toggle_habit db1 uid hid day t2 = Inr (db2, k2)"
    "habit_logs db2 = map (\<lambda>r. if log_key uid hid day r
        then r\<lparr>log_value := 1 - log_value (row\<lparr>log_value := 1 - log_value row\<rparr>)\<rparr> else r)
          (habit_logs db1)"
    using toggle_habit_present [OF assms(1,2) rows1 undo_ok, of t2] by blast
  have "stored_value db2 uid hid day = log_value row"
    using rows1 by (simp add: stored_value_def log_rows_def 2(2) log_rows_update fetchone_def)
  then show ?thesis using 1(1) 2(1) v by simp
qed


theorem toggle_twice_witness:
  "sqlite_int 1 \<and> sqlite_int 2 \<and>
   stored_value (init_db\<lparr>habit_logs :=
       [\<lparr>log_user = 1, log_habit = 2, log_date = ''2024-05-01'', log_value = 1\<rparr>]\<rparr>)
     1 2 ''2024-05-01'' = 1 \<and>
   (\<exists>db1 k1 db2 k2.
      toggle_habit (init_db\<lparr>habit_logs :=
          [\<lparr>log_user = 1, log_habit = 2, log_date = ''2024-05-01'', log_value = 1\<rparr>]\<rparr>)
        1 2 ''2024-05-01'' ''2024-05-01'' = Inr (db1, k1) \<and>
      toggle_habit db1 1 2 ''2024-05-01'' ''2024-05-02'' = Inr (db2, k2) \<and>
      stored_value db2 1 2 ''2024-05-01'' = 1)"
proof -
  let ?db = "init_db\<lparr>habit_logs :=
       [\<lparr>log_user = 1, log_habit = 2, log_date = ''2024-05-01'', log_value = 1\<rparr>]\<rparr>"
  have a: "sqlite_int 1" and b: "sqlite_int 2"
    by (simp_all add: sqlite_int_def)
  have v: "stored_value ?db 1 2 ''2024-05-01'' = 1"
    by (simp add: stored_value_def log_rows_def log_key_def fetchone_def)
  have c: "sqlite_int (stored_value ?db 1 2 ''2024-05-01'')"
    and d: "sqlite_int (1 - stored_value ?db 1 2 ''2024-05-01'')"
    by (simp_all add: v sqlite_int_def)
  show ?thesis
    using a b v toggle_twice [OF a b c d, of "''2024-05-01''" "''2024-05-02''"] by simp
qed

subsection \<open>One log row per key\<close>

lemma toggle_habit_Inl:
  "\<not> (sqlite_int uid \<and> sqlite_int hid) \<Longrightarrow> toggle_habit db uid hid day t = Inl OverflowError"
  by (simp add: toggle_habit_def)

lemma sqlite_int_bit: "v \<in> {0, 1} \<Longrightarrow> sqlite_int (1 - v)"
  by (auto simp: sqlite_int_def)

lemma log_rows_Nil_key:
  "log_rows db u h d = [] \<Longrightarrow> (u, h, d) \<notin> set (map log_key_of (habit_logs db))"
  by (auto simp: log_rows_def filter_empty_conv log_key_iff)

lemma log_rows_Cons_mem:
  "log_rows db u h d = row # rest \<Longrightarrow> row \<in> set (habit_logs db) \<and> log_key u h d row"
proof -
  assume "log_rows db u h d = row # rest"
  then have "row \<in> set (log_rows db u h d)" by simp
  then show ?thesis by (simp add: log_rows_def)
qed

lemma toggle_habit_logs_ok:
  assumes "logs_ok db"
  shows "logs_ok (committed db (toggle_habit db uid hid day t))"
proof (cases "sqlite_int uid \<and> sqlite_int hid")
  case False
  then show ?thesis
    using assms by (simp add: toggle_habit_Inl committed_def)
next
  case True
  then have u: "sqlite_int uid" and h: "sqlite_int hid" by simp_all
  show ?thesis
  proof (cases "log_rows db uid hid day")
    case Nil
    obtain db' k where 1: "toggle_habit db uid hid day t = Inr (db', k)"
      "habit_logs db' = habit_logs db @
         [\<lparr>log_user = uid, log_habit = hid, log_date = day, log_value = 1\<rparr>]"
      using toggle_habit_absent [OF u h Nil, of t] by blast
    have "logs_ok db'"
      using assms log_rows_Nil_key [OF Nil]
      by (auto simp: logs_ok_def 1(2) log_key_of_def)
    then show ?thesis by (simp add: 1(1) committed_def)
  next
    case (Cons row rest)
    have "log_value row \<in> {0, 1}"
      using assms log_rows_Cons_mem [OF Cons] by (auto simp: logs_ok_def)
    then have ok: "sqlite_int (1 - log_value row)" and bit: "1 - log_value row \<in> {0, 1}"
      by (auto simp: sqlite_int_def)
    obtain db' k where 1: "toggle_habit db uid hid day t = Inr (db', k)"
      "habit_logs db' =
         map (\<lambda>r. if log_key uid hid day r then r\<lparr>log_value := 1 - log_value row\<rparr> else r)
           (habit_logs db)"
      using toggle_habit_present [OF u h Cons ok, of t] by blast
    have "logs_ok db'"
      unfolding logs_ok_def 1(2) log_key_of_update
      using assms bit by (auto simp: logs_ok_def)
    then show ?thesis by (simp add: 1(1) committed_def)
  qed
qed

lemma toggles_logs_ok: "logs_ok db \<Longrightarrow> logs_ok (toggles db evs)"
proof (induction evs arbitrary: db)
  case Nil
  then show ?case by simp
next
  case (Cons ev evs)
  obtain u h d t where ev: "ev = (u, h, d, t)" by (cases ev) auto
  show ?case
    using Cons.IH [OF toggle_habit_logs_ok [OF Cons.prems, of u h d t]] by (simp add: ev)
qed

lemma distinct_key_rows:
  "distinct (map log_key_of rows) \<Longrightarrow> length (filter (log_key u h d) rows) \<le> 1"
proof (induction rows)
  case Nil
  then show ?case by simp
next
  case (Cons r rows)
  show ?case
  proof (cases "log_key u h d r")
    case True
    then have "(u, h, d) \<notin> set (map log_key_of rows)"
      using Cons.prems by (simp add: log_key_iff)
    then have "\<forall>x \<in> set rows. log_key_of x \<noteq> (u, h, d)"
      by force
    then have "filter (log_key u h d) rows = []"
      by (simp add: filter_empty_conv log_key_iff)
    then show ?thesis using True by simp
  next
    case False
    then show ?thesis using Cons by simp
  qed
qed


lemma init_logs_ok: "habit_logs db = [] \<Longrightarrow> logs_ok db"
  by (simp add: logs_ok_def)

text \<open>
  C6. After any run of toggle presses from a store with no log row, a key (user, habit id,
  date) has at most one row in \<^verbatim>\<open>habit_logs\<close>. A further toggle for a key without a row
  appends the row of value 1; for a key with a row, whose value is 0 or 1, it writes
  1 minus that value into the row and adds none; either way the key then has one row.
\<close>

theorem toggles_one_row_per_key:
  assumes "habit_logs db0 = []"
  shows "length (log_rows (toggles db0 evs) uid hid day) \<le> 1 \<and>
         (sqlite_int uid \<and> sqlite_int hid \<longrightarrow>
            (\<exists>db' k.
               toggle_habit (toggles db0 evs) uid hid day t = Inr (db', k) \<and>
               (case log_rows (toggles db0 evs) uid hid day of
                  [] \<Rightarrow>
                    habit_logs db' = habit_logs (toggles db0 evs) @
                      [\<lparr>log_user = uid, log_habit = hid, log_date = day, log_value = 1\<rparr>]
                | row # _ \<Rightarrow>
                    log_value row \<in> {0, 1} \<and>
                    habit_logs db' =
                      map (\<lambda>r. if log_key uid hid day r
                                then r\<lparr>log_value := 1 - log_value row\<rparr> else r)
                        (habit_logs (toggles db0 evs))) \<and>
               length (log_rows db' uid hid day) = 1))"
proof -
  define db where "db = toggles db0 evs"
  have ok: "logs_ok db"
    unfolding db_def by (rule toggles_logs_ok [OF init_logs_ok [OF assms]])
  have le: "length (log_rows db uid hid day) \<le> 1"
    using ok distinct_key_rows by (simp add: logs_ok_def log_rows_def)
  have step: "\<exists>db' k.
       toggle_habit db uid hid day t = Inr (db', k) \<and>
       (case log_rows db uid hid day of
          [] \<Rightarrow>
            habit_logs db' = habit_logs db @
              [\<lparr>log_user = uid, log_habit = hid, log_date = day, log_value = 1\<rparr>]
        | row # _ \<Rightarrow>
            log_value row \<in> {0, 1} \<and>
            habit_logs db' =
              map (\<lambda>r. if log_key uid hid day r
                        then r\<lparr>log_value := 1 - log_value row\<rparr> else r)
                (habit_logs db)) \<and>
       length (log_rows db' uid hid day) = 1"
    if u: "sqlite_int uid" and h: "sqlite_int hid"
  proof (cases "log_rows db uid hid day")
    case Nil
    obtain db' k where 1: "toggle_habit db uid hid day t = Inr (db', k)"
      "habit_logs db' = habit_logs db @
         [\<lparr>log_user = uid, log_habit = hid, log_date = day, log_value = 1\<rparr>]"
      using toggle_habit_absent [OF u h Nil, of t] by blast
    have "log_rows db' uid hid day =
        [\<lparr>log_user = uid, log_habit = hid, log_date = day, log_value = 1\<rparr>]"
      using Nil by (simp add: log_rows_def 1(2) log_key_def)
    then show ?thesis using 1 Nil by simp
  next
    case (Cons row rest)
    have bit: "log_value row \<in> {0, 1}"
      using ok log_rows_Cons_mem [OF Cons] by (simp add: logs_ok_def)
    obtain db' k where 1: "toggle_habit db uid hid day t = Inr (db', k)"
      "habit_logs db' =
         map (\<lambda>r. if log_key uid hid day r then r\<lparr>log_value := 1 - log_value row\<rparr> else r)
           (habit_logs db)"
      using toggle_habit_present [OF u h Cons sqlite_int_bit [OF bit], of t] by blast
    have "length (log_rows db' uid hid day) = length (log_rows db uid hid day)"
      by (simp add: log_rows_def 1(2) log_rows_update)
    then have "length (log_rows db' uid hid day) = 1"
      using le Cons by simp
    then show ?thesis using 1 Cons bit by simp
  qed
  show ?thesis
    using le step unfolding db_def by blast
qed

theorem toggles_one_row_per_key_witness:
  "habit_logs init_db = [] \<and> sqlite_int 1 \<and> sqlite_int 2 \<and>
   log_rows (toggles init_db [(1, 2, ''2024-05-01'', ''2024-05-01'')]) 1 2 ''2024-05-01'' =
     [\<lparr>log_user = 1, log_habit = 2, log_date = ''2024-05-01'', log_value = 1\<rparr>] \<and>
   (\<exists>db' k.
      toggle_habit (toggles init_db [(1, 2, ''2024-05-01'', ''2024-05-01'')])
        1 2 ''2024-05-01'' ''2024-05-01'' = Inr (db', k) \<and>
      habit_logs db' =
        [\<lparr>log_user = 1, log_habit = 2, log_date = ''2024-05-01'', log_value = 0\<rparr>])"
proof -
  let ?evs = "[(1, 2, ''2024-05-01'', ''2024-05-01'')] :: (int \<times> int \<times> string \<times> string) list"
  have e: "habit_logs init_db = []" by (simp add: init_db_def)
  have a: "sqlite_int 1" and b: "sqlite_int 2" by (simp_all add: sqlite_int_def)
  have logs: "habit_logs (toggles init_db ?evs) =
      [\<lparr>log_user = 1, log_habit = 2, log_date = ''2024-05-01'', log_value = 1\<rparr>]"
    using toggle_habit_absent [OF a b, of init_db "''2024-05-01''" "''2024-05-01''"]
    by (auto simp: committed_def init_db_def log_rows_def)
  have rows: "log_rows (toggles init_db ?evs) 1 2 ''2024-05-01'' =
      [\<lparr>log_user = 1, log_habit = 2, log_date = ''2024-05-01'', log_value = 1\<rparr>]"
    by (simp add: log_rows_def logs log_key_def del: toggles.simps)
  from toggles_one_row_per_key [OF e, of ?evs 1 2 "''2024-05-01''" "''2024-05-01''"] a b
  have "\<exists>db' k.
      toggle_habit (toggles init_db ?evs) 1 2 ''2024-05-01'' ''2024-05-01'' = Inr (db', k) \<and>
      habit_logs db' =
        [\<lparr>log_user = 1, log_habit = 2, log_date = ''2024-05-01'', log_value = 0\<rparr>]"
    by (auto simp: rows logs log_key_def simp del: toggles.simps)
  then show ?thesis
    using a b e rows by (simp del: toggles.simps)
qed

subsection \<open>A habit id that is not in the table of habits\<close>

text \<open>
  C9 as stated fails: in the empty store, a toggle press carrying the habit id 42, which no
  habit row has before or after, leaves a new log row for 42.
\<close>

theorem toggle_unknown_habit_counterexample:
  "map hab_id (habits init_db) = [] \<and>
   habit_logs (committed init_db
      (toggle_habit init_db 1 42 ''2024-05-01'' ''2024-05-01'')) =
     [\<lparr>log_user = 1, log_habit = 42, log_date = ''2024-05-01'', log_value = 1\<rparr>] \<and>
   map hab_id (habits (committed init_db
      (toggle_habit init_db 1 42 ''2024-05-01'' ''2024-05-01''))) = [1, 2, 3]"
  by (simp add: toggle_habit_def start_def committed_def init_db_def sqlite_int_def
      log_rows_def fetchone_def user_habits_def default_habits_def insert_habit_def Let_def)

text \<open>
  C9, amended. The toggle never reads the table \<^verbatim>\<open>habits\<close>: for a habit id that no habit row
  has, it writes the log as for any other id. With no log row for (user, id, date) it
  appends the row of value 1; otherwise it writes 1 minus the value read into the rows of
  that key.
\<close>

theorem toggle_unknown_habit:
  assumes "sqlite_int uid" "sqlite_int hid" "hid \<notin> set (map hab_id (habits db))"
    "sqlite_int (1 - stored_value db uid hid day)"
  shows "\<exists>db' k.
           toggle_habit db uid hid day t = Inr (db', k) \<and>
           habit_logs db' =
             (case log_rows db uid hid day of
                [] \<Rightarrow> habit_logs db @
                  [\<lparr>log_user = uid, log_habit = hid, log_date = day, log_value = 1\<rparr>]
              | row # _ \<Rightarrow>
                  map (\<lambda>r. if log_key uid hid day r
                            then r\<lparr>log_value := 1 - log_value row\<rparr> else r)
                    (habit_logs db))"
proof (cases "log_rows db uid hid day")
  case Nil
  then show ?thesis
    using toggle_habit_absent [OF assms(1,2) Nil, of t] by simp
next
  case (Cons row rest)
  have "sqlite_int (1 - log_value row)"
    using assms(4) Cons by (simp add: stored_value_def fetchone_def)
  then show ?thesis
    using toggle_habit_present [OF assms(1,2) Cons, of t] Cons by simp
qed

theorem toggle_unknown_habit_witness:
  "sqlite_int 1 \<and> sqlite_int 42 \<and> 42 \<notin> set (map hab_id (habits init_db)) \<and>
   sqlite_int (1 - stored_value init_db 1 42 ''2024-05-01'') \<and>
   (\<exists>db' k.
      toggle_habit init_db 1 42 ''2024-05-01'' ''2024-05-01'' = Inr (db', k) \<and>
      habit_logs db' =
        [\<lparr>log_user = 1, log_habit = 42, log_date = ''2024-05-01'', log_value = 1\<rparr>])"
proof -
  have a: "sqlite_int 1" and b: "sqlite_int 42" by (simp_all add: sqlite_int_def)
  have c: "42 \<notin> set (map hab_id (habits init_db))" by (simp add: init_db_def)
  have r: "log_rows init_db 1 42 ''2024-05-01'' = []" by (simp add: log_rows_def init_db_def)
  have d: "sqlite_int (1 - stored_value init_db 1 42 ''2024-05-01'')"
    by (simp add: stored_value_def r fetchone_def sqlite_int_def)
  have e: "habit_logs init_db = []" by (simp add: init_db_def)
  from toggle_unknown_habit [OF a b c d, of "''2024-05-01''"]
  have "\<exists>db' k.
      toggle_habit init_db 1 42 ''2024-05-01'' ''2024-05-01'' = Inr (db', k) \<and>
      habit_logs db' =
        [\<lparr>log_user = 1, log_habit = 42, log_date = ''2024-05-01'', log_value = 1\<rparr>]"
    by (simp add: r e)
  then show ?thesis
    using a b c d by simp
qed

section \<open>Setting and sending reminders\<close>

lemma replace_reminder_user:
  "filter (\<lambda>r. rem_user r = uid) (replace_reminder uid t rows) =
     [\<lparr>rem_user = uid, rem_time = t\<rparr>]"
  by (induction rows) (auto simp: replace_reminder_def)

lemma replace_reminder_others:
  "v \<noteq> uid \<Longrightarrow>
   filter (\<lambda>r. rem_user r = v) (replace_reminder uid t rows) = filter (\<lambda>r. rem_user r = v) rows"
  by (induction rows) (auto simp: replace_reminder_def)

lemma replace_reminder_distinct:
  "distinct (map rem_user rows) \<Longrightarrow> distinct (map rem_user (replace_reminder uid t rows))"
  by (auto simp: replace_reminder_def distinct_map_filter)

lemma remind_keeps_primary_key:
  "distinct (map rem_user (reminders db)) \<Longrightarrow>
   distinct (map rem_user (reminders (committed db (remind db uid args))))"
  by (auto simp: remind_def committed_def replace_reminder_distinct distinct_map_filter
      split: list.splits)

text \<open>
  C2 as stated fails: \<^verbatim>\<open>/remind 99:99\<close> is not rejected. In the empty store it writes the row
  (1, 99:99) for user 1 and answers that the reminder is set.
\<close>

theorem remind_99_99_counterexample:
  "remind init_db 1 [''99:99''] =
     Inr (init_db\<lparr>reminders := [\<lparr>rem_user = 1, rem_time = ''99:99''\<rparr>]\<rparr>, Text reminder_set)"
  by (simp add: remind_def init_db_def sqlite_int_def is_digit_def replace_reminder_def)

text \<open>
  C2, amended. For a user id the driver can bind and any store: the argument 99:99 is
  accepted, the reply is the one of a reminder set and the user then has the one row
  (user, 99:99); the argument 08:30 likewise leaves the one row (user, 08:30); the argument
  off answers that the reminder is off and leaves the user no row.
\<close>

theorem remind_scenario:
  assumes "sqlite_int uid"
  shows "(\<exists>db'. remind db uid [''99:99''] = Inr (db', Text reminder_set) \<and>
            user_reminders db' uid = [\<lparr>rem_user = uid, rem_time = ''99:99''\<rparr>]) \<and>
         (\<exists>db'. remind db uid [''08:30''] = Inr (db', Text reminder_set) \<and>
            user_reminders db' uid = [\<lparr>rem_user = uid, rem_time = ''08:30''\<rparr>]) \<and>
         (\<exists>db'. remind db uid [''off''] = Inr (db', Text ''Reminder off'') \<and>
            user_reminders db' uid = [])"
  using assms
  by (simp add: remind_def is_digit_def user_reminders_def replace_reminder_user)

theorem remind_scenario_witness:
  "sqlite_int 5 \<and>
   remind init_db 5 [''08:30''] =
     Inr (init_db\<lparr>reminders := [\<lparr>rem_user = 5, rem_time = ''08:30''\<rparr>]\<rparr>, Text reminder_set) \<and>
   (\<exists>db'. remind (init_db\<lparr>reminders := [\<lparr>rem_user = 5, rem_time = ''08:30''\<rparr>]\<rparr>) 5 [''off''] =
      Inr (db', Text ''Reminder off'') \<and> user_reminders db' 5 = [])"
proof -
  have a: "sqlite_int 5" by (simp add: sqlite_int_def)
  have b: "remind init_db 5 [''08:30''] =
     Inr (init_db\<lparr>reminders := [\<lparr>rem_user = 5, rem_time = ''08:30''\<rparr>]\<rparr>, Text reminder_set)"
    by (simp add: remind_def init_db_def sqlite_int_def is_digit_def replace_reminder_def)
  show ?thesis
    using remind_scenario [OF a, of "init_db\<lparr>reminders := [\<lparr>rem_user = 5, rem_time = ''08:30''\<rparr>]\<rparr>"]
      a b by simp
qed

text \<open>
  C3 (fails on the code). The argument 08:30xyz is not of the form of two digits, a colon
  and two digits, yet no format error is returned: the row (1, 08:30xyz) is written and
  the reply is the one of a reminder set. The pattern is matched at the start of the
  argument only.
\<close>

theorem remind_trailing_text_accepted:
  "remind init_db 1 [''08:30xyz''] =
     Inr (init_db\<lparr>reminders := [\<lparr>rem_user = 1, rem_time = ''08:30xyz''\<rparr>]\<rparr>, Text reminder_set)"
  by (simp add: remind_def init_db_def sqlite_int_def is_digit_def replace_reminder_def)

subsection \<open>The poller\<close>

lemma count_sent:
  "count_list (map fst (send_reminders db now)) uid =
     length (filter (\<lambda>r. rem_user r = uid \<and> rem_time r = now) (reminders db))"
proof -
  have "count_list (map fst (map (\<lambda>r. (rem_user r, m)) (filter (\<lambda>r. rem_time r = now) rows))) uid =
      length (filter (\<lambda>r. rem_user r = uid \<and> rem_time r = now) rows)" for rows m
    by (induction rows) auto
  then show ?thesis by (simp add: send_reminders_def)
qed

lemma distinct_user_rows:
  "distinct (map rem_user rows) \<Longrightarrow>
   length (filter (\<lambda>r. rem_user r = uid \<and> rem_time r = now) rows) =
     (if \<lparr>rem_user = uid, rem_time = now\<rparr> \<in> set rows then 1 else 0)"
proof (induction rows)
  case Nil
  then show ?case by simp
next
  case (Cons r rows)
  show ?case
  proof (cases "rem_user r = uid")
    case True
    then have "uid \<notin> rem_user ` set rows"
      using Cons.prems by auto
    then have none: "\<forall>x \<in> set rows. rem_user x \<noteq> uid"
      by blast
    then have "filter (\<lambda>r. rem_user r = uid \<and> rem_time r = now) rows = []"
      by (simp add: filter_empty_conv)
    moreover have "\<lparr>rem_user = uid, rem_time = now\<rparr> \<notin> set rows"
      using none by force
    moreover have "r = \<lparr>rem_user = uid, rem_time = now\<rparr> \<longleftrightarrow> rem_time r = now"
      using True by (cases r) auto
    ultimately show ?thesis using True by auto
  next
    case False
    then have "r \<noteq> \<lparr>rem_user = uid, rem_time = now\<rparr>" by auto
    then show ?thesis using False Cons by auto
  qed
qed

text \<open>
  C8. The user id is the primary key of the table \<^verbatim>\<open>reminders\<close>, so no two rows share one.
  On a tick at clock reading \<open>now\<close>, the number of messages sent to a user is 1 when the
  table holds the row (user, \<open>now\<close>) and 0 otherwise, that is when the user has a row of
  another time or no row; every message sent is the reminder text.
\<close>

theorem send_reminders_exact:
  assumes "distinct (map rem_user (reminders db))"
  shows "count_list (map fst (send_reminders db now)) uid =
           (if \<lparr>rem_user = uid, rem_time = now\<rparr> \<in> set (reminders db) then 1 else 0) \<and>
         set (map snd (send_reminders db now)) \<subseteq> {time_to_mark}"
proof
  show "count_list (map fst (send_reminders db now)) uid =
          (if \<lparr>rem_user = uid, rem_time = now\<rparr> \<in> set (reminders db) then 1 else 0)"
    unfolding count_sent by (rule distinct_user_rows [OF assms])
  show "set (map snd (send_reminders db now)) \<subseteq> {time_to_mark}"
    by (auto simp: send_reminders_def)
qed

theorem send_reminders_exact_witness:
  "distinct (map rem_user (reminders
      (init_db\<lparr>reminders := [\<lparr>rem_user = 1, rem_time = ''07:05''\<rparr>,
                              \<lparr>rem_user = 2, rem_time = ''08:30''\<rparr>]\<rparr>))) \<and>
   count_list (map fst (send_reminders
      (init_db\<lparr>reminders := [\<lparr>rem_user = 1, rem_time = ''07:05''\<rparr>,
                              \<lparr>rem_user = 2, rem_time = ''08:30''\<rparr>]\<rparr>) ''07:05'')) 1 = 1 \<and>
   count_list (map fst (send_reminders
      (init_db\<lparr>reminders := [\<lparr>rem_user = 1, rem_time = ''07:05''\<rparr>,
                              \<lparr>rem_user = 2, rem_time = ''08:30''\<rparr>]\<rparr>) ''07:05'')) 2 = 0"
proof -
  let ?db = "init_db\<lparr>reminders := [\<lparr>rem_user = 1, rem_time = ''07:05''\<rparr>,
                              \<lparr>rem_user = 2, rem_time = ''08:30''\<rparr>]\<rparr>"
  have d: "distinct (map rem_user (reminders ?db))" by simp
  show ?thesis
    using d send_reminders_exact [OF d, of "''07:05''" 1]
      send_reminders_exact [OF d, of "''07:05''" 2]
    by simp
qed

section \<open>Removing and renaming habits\<close>

text \<open>
  C7. Removing a habit, for an id the driver can bind, deletes from the table \<^verbatim>\<open>habits\<close>
  the rows of that id and no other, and leaves the tables \<^verbatim>\<open>habit_logs\<close>, \<^verbatim>\<open>mood\<close> and
  \<^verbatim>\<open>reminders\<close> as they were: the log rows of the removed id are still there.
\<close>

theorem remove_habit_no_cascade:
  assumes "sqlite_int hid"
  shows "\<exists>db'. remove_habit db uid hid = Inr (db', Text habit_removed, END) \<and>
           habits db' = filter (\<lambda>h. hab_id h \<noteq> hid) (habits db) \<and>
           habit_logs db' = habit_logs db \<and>
           log_rows db' u hid day = log_rows db u hid day \<and>
           mood db' = mood db \<and> reminders db' = reminders db"
  using assms by (simp add: remove_habit_def log_rows_def)

theorem remove_habit_no_cascade_witness:
  "sqlite_int 2 \<and>
   (\<exists>db'. remove_habit two_users 20 2 = Inr (db', Text habit_removed, END) \<and>
      habits db' = [\<lparr>hab_id = 1, hab_user = 10, hab_name = ''Run''\<rparr>] \<and>
      habit_logs db' =
        [\<lparr>log_user = 20, log_habit = 2, log_date = ''2024-05-01'', log_value = 1\<rparr>])"
proof -
  have a: "sqlite_int 2" by (simp add: sqlite_int_def)
  from remove_habit_no_cascade [OF a, of two_users 20 20 "''2024-05-01''"]
  have "\<exists>db'. remove_habit two_users 20 2 = Inr (db', Text habit_removed, END) \<and>
      habits db' = [\<lparr>hab_id = 1, hab_user = 10, hab_name = ''Run''\<rparr>] \<and>
      habit_logs db' =
        [\<lparr>log_user = 20, log_habit = 2, log_date = ''2024-05-01'', log_value = 1\<rparr>]"
    by (auto simp: two_users_def)
  then show ?thesis using a by simp
qed

text \<open>
  C10. Neither handler compares the owner of a habit row with the user who acts. When a
  row \<open>h\<close> with id \<open>hid\<close> belongs to another user than \<open>uid\<close>, the removal by \<open>uid\<close> with
  the id \<open>hid\<close> deletes \<open>h\<close>, and the edit flow of \<open>uid\<close> (selection of \<open>hid\<close>, then a
  text) leaves \<open>h\<close> under the new name.
\<close>

theorem habit_of_another_user:
  assumes "sqlite_int hid" "h \<in> set (habits db)" "hab_id h = hid" "hab_user h \<noteq> uid"
  shows "(\<exists>db'. remove_habit db uid hid = Inr (db', Text habit_removed, END) \<and>
            habits db' = filter (\<lambda>x. hab_id x \<noteq> hid) (habits db) \<and>
            h \<notin> set (habits db')) \<and>
         (\<exists>ud' r s db'.
            edit_select ud uid hid = (ud', r, s) \<and>
            edit_save db ud' uid text = Inr (db', Text habit_updated, END) \<and>
            habits db' =
              map (\<lambda>x. if hab_id x = hid then x\<lparr>hab_name := strip text\<rparr> else x) (habits db) \<and>
            h\<lparr>hab_name := strip text\<rparr> \<in> set (habits db'))"
proof
  show "\<exists>db'. remove_habit db uid hid = Inr (db', Text habit_removed, END) \<and>
            habits db' = filter (\<lambda>x. hab_id x \<noteq> hid) (habits db) \<and>
            h \<notin> set (habits db')"
    using assms by (simp add: remove_habit_def)
  have "h\<lparr>hab_name := strip text\<rparr> \<in>
      set (map (\<lambda>x. if hab_id x = hid then x\<lparr>hab_name := strip text\<rparr> else x) (habits db))"
    using assms(2,3) by (force simp: image_iff)
  then show "\<exists>ud' r s db'.
            edit_select ud uid hid = (ud', r, s) \<and>
            edit_save db ud' uid text = Inr (db', Text habit_updated, END) \<and>
            habits db' =
              map (\<lambda>x. if hab_id x = hid then x\<lparr>hab_name := strip text\<rparr> else x) (habits db) \<and>
            h\<lparr>hab_name := strip text\<rparr> \<in> set (habits db')"
    using assms(1) by (simp add: edit_select_def edit_save_def)
qed

theorem habit_of_another_user_witness:
  "sqlite_int 2 \<and>
   \<lparr>hab_id = 2, hab_user = 20, hab_name = ''Read''\<rparr> \<in> set (habits two_users) \<and>
   (20::int) \<noteq> 10 \<and>
   (\<exists>db'. remove_habit two_users 10 2 = Inr (db', Text habit_removed, END) \<and>
      habits db' = [\<lparr>hab_id = 1, hab_user = 10, hab_name = ''Run''\<rparr>]) \<and>
   (\<exists>ud' r s db'.
      edit_select Map.empty 10 2 = (ud', r, s) \<and>
      edit_save two_users ud' 10 '' Mine '' = Inr (db', Text habit_updated, END) \<and>
      habits db' = [\<lparr>hab_id = 1, hab_user = 10, hab_name = ''Run''\<rparr>,
                    \<lparr>hab_id = 2, hab_user = 20, hab_name = ''Mine''\<rparr>])"
proof -
  let ?h = "\<lparr>hab_id = 2, hab_user = 20, hab_name = ''Read''\<rparr>"
  have a: "sqlite_int 2" by (simp add: sqlite_int_def)
  have b: "?h \<in> set (habits two_users)" by (simp add: two_users_def)
  have c: "hab_id ?h = 2" by simp
  have d: "hab_user ?h \<noteq> 10" by simp
  have s: "strip '' Mine '' = ''Mine''" by (simp add: strip_def is_space_def)
  have hs: "habits two_users = [\<lparr>hab_id = 1, hab_user = 10, hab_name = ''Run''\<rparr>, ?h]"
    by (simp add: two_users_def)
  from habit_of_another_user [OF a b c d, of Map.empty "'' Mine ''"]
  have "(\<exists>db'. remove_habit two_users 10 2 = Inr (db', Text habit_removed, END) \<and>
      habits db' = [\<lparr>hab_id = 1, hab_user = 10, hab_name = ''Run''\<rparr>]) \<and>
   (\<exists>ud' r s db'.
      edit_select Map.empty 10 2 = (ud', r, s) \<and>
      edit_save two_users ud' 10 '' Mine '' = Inr (db', Text habit_updated, END) \<and>
      habits db' = [\<lparr>hab_id = 1, hab_user = 10, hab_name = ''Run''\<rparr>,
                    \<lparr>hab_id = 2, hab_user = 20, hab_name = ''Mine''\<rparr>])"
    unfolding hs s by simp blast
  then show ?thesis using a b by simp
qed

end
